theory Spec2Isabelle
  imports Main "HOL-Library.Sublist"
begin

section \<open>Go strings\<close>

text \<open>
  A Go string is a sequence of bytes, modelled as \<open>string\<close> (a list of 8-bit characters).
  The program reads its strings in two ways: byte-wise (\<open>strings.HasPrefix\<close>,
  \<open>strings.Contains\<close>, \<open>strings.ReplaceAll\<close>, \<open>+\<close>) and rune-wise
  (\<open>for _, r := range text\<close>, \<open>strings.TrimSpace\<close>), where a rune is a Unicode code
  point decoded from UTF-8. Runes are natural numbers.
\<close>

type_synonym rune = nat

definition RuneError :: rune where
  "RuneError = 0xFFFD"

text \<open>
  \<open>utf8.DecodeRuneInString\<close>: the first rune of a string and its width in bytes.
  An empty string gives \<open>(RuneError, 0)\<close>, an invalid encoding \<open>(RuneError, 1)\<close>.
  \<open>first_accept\<close> is the table \<open>first\<close> of package \<open>utf8\<close> for lead bytes:
  the size of the encoding and the range accepted for the second byte.
\<close>

definition first_accept :: "nat \<Rightarrow> (nat \<times> nat \<times> nat) option" where
  "first_accept b0 =
     (if 0xC2 \<le> b0 \<and> b0 \<le> 0xDF then Some (2, 0x80, 0xBF)
      else if b0 = 0xE0 then Some (3, 0xA0, 0xBF)
      else if 0xE1 \<le> b0 \<and> b0 \<le> 0xEC then Some (3, 0x80, 0xBF)
      else if b0 = 0xED then Some (3, 0x80, 0x9F)
      else if b0 = 0xEE \<or> b0 = 0xEF then Some (3, 0x80, 0xBF)
      else if b0 = 0xF0 then Some (4, 0x90, 0xBF)
      else if 0xF1 \<le> b0 \<and> b0 \<le> 0xF3 then Some (4, 0x80, 0xBF)
      else if b0 = 0xF4 then Some (4, 0x80, 0x8F)
      else None)"

definition continuation :: "nat \<Rightarrow> bool" where
  "continuation b = (0x80 \<le> b \<and> b \<le> 0xBF)"

fun DecodeRuneInString :: "string \<Rightarrow> rune \<times> nat" where
  "DecodeRuneInString [] = (RuneError, 0)"
| "DecodeRuneInString (c0 # rest) =
     (let s0 = (of_char c0 :: nat) in
      if s0 < 0x80 then (s0, 1)
      else case first_accept s0 of
        None \<Rightarrow> (RuneError, 1)
      | Some (sz, lo, hi) \<Rightarrow>
          if length rest + 1 < sz then (RuneError, 1)
          else
            let s1 = (of_char (rest ! 0) :: nat) in
            if s1 < lo \<or> hi < s1 then (RuneError, 1)
            else if sz \<le> 2 then ((s0 mod 32) * 64 + s1 mod 64, 2)
            else
              let s2 = (of_char (rest ! 1) :: nat) in
              if \<not> continuation s2 then (RuneError, 1)
              else if sz \<le> 3 then ((s0 mod 16) * 4096 + (s1 mod 64) * 64 + s2 mod 64, 3)
              else
                let s3 = (of_char (rest ! 2) :: nat) in
                if \<not> continuation s3 then (RuneError, 1)
                else ((s0 mod 8) * 262144 + (s1 mod 64) * 4096 + (s2 mod 64) * 64
                        + s3 mod 64, 4))"

text \<open>
  \<open>utf8.DecodeLastRuneInString\<close>: the last rune of a string and its width. It looks
  back at most four bytes for a byte that can start a rune, decodes from there, and
  accepts the rune only if its encoding ends exactly at the end of the string.
\<close>

definition RuneStart :: "char \<Rightarrow> bool" where
  "RuneStart c = (\<not> continuation (of_char c))"

definition DecodeLastRuneInString :: "string \<Rightarrow> rune \<times> nat" where
  "DecodeLastRuneInString s =
     (if s = [] then (RuneError, 0)
      else if (of_char (last s) :: nat) < 0x80 then (of_char (last s), 1)
      else
        case find (\<lambda>k. RuneStart (s ! (length s - k)))
                  (filter (\<lambda>k. k \<le> length s) [2, 3, 4]) of
          None \<Rightarrow> (RuneError, 1)
        | Some k \<Rightarrow>
            (case DecodeRuneInString (drop (length s - k) s) of
               (r, sz) \<Rightarrow> if sz \<noteq> k then (RuneError, 1) else (r, sz)))"

text \<open>\<open>unicode.IsSpace\<close>: the Latin-1 spaces and the \<open>White_Space\<close> property.\<close>

definition IsSpace :: "rune \<Rightarrow> bool" where
  "IsSpace r =
     (if r \<le> 0xFF then r \<in> {0x09, 0x0A, 0x0B, 0x0C, 0x0D, 0x20, 0x85, 0xA0}
      else r = 0x1680 \<or> (0x2000 \<le> r \<and> r \<le> 0x200A) \<or> r = 0x2028 \<or> r = 0x2029
           \<or> r = 0x202F \<or> r = 0x205F \<or> r = 0x3000)"

text \<open>
  The runes a \<open>range\<close> loop over a string visits: each step decodes one rune and
  advances by its width; an invalid byte yields \<open>RuneError\<close> and advances one byte.
\<close>

function range_runes :: "string \<Rightarrow> rune list" where
  "range_runes s =
     (if s = [] then []
      else fst (DecodeRuneInString s)
             # range_runes (drop (snd (DecodeRuneInString s)) s))"
  by pat_completeness auto

lemma DecodeRuneInString_width:
  "s \<noteq> [] \<Longrightarrow> 0 < snd (DecodeRuneInString s)"
  by (cases s) (auto simp: Let_def split: option.splits)

termination range_runes
  by (relation "measure length") (auto simp: DecodeRuneInString_width)

declare range_runes.simps [simp del]

subsection \<open>Package strings\<close>

definition strings_HasPrefix :: "string \<Rightarrow> string \<Rightarrow> bool" where
  "strings_HasPrefix s pre = prefix pre s"

definition strings_Contains :: "string \<Rightarrow> string \<Rightarrow> bool" where
  "strings_Contains s substr = sublist substr s"

text \<open>\<open>strings.Join\<close>: the elements with the separator between each two.\<close>

fun strings_Join :: "string list \<Rightarrow> string \<Rightarrow> string" where
  "strings_Join [] sep = []"
| "strings_Join [x] sep = x"
| "strings_Join (x # y # ys) sep = x @ sep @ strings_Join (y # ys) sep"

text \<open>
  \<open>strings.TrimSpace\<close> removes all leading and trailing white space, as defined by
  Unicode: \<open>TrimLeftFunc\<close> drops leading runes while \<open>unicode.IsSpace\<close> holds,
  \<open>TrimRightFunc\<close> drops trailing runes likewise, decoding from the end.
\<close>

function TrimLeftSpace :: "string \<Rightarrow> string" where
  "TrimLeftSpace [] = []"
| "TrimLeftSpace (c # cs) =
     (if IsSpace (fst (DecodeRuneInString (c # cs)))
      then TrimLeftSpace (drop (snd (DecodeRuneInString (c # cs))) (c # cs))
      else c # cs)"
  by pat_completeness auto

termination TrimLeftSpace
  by (relation "measure length") (auto simp: Let_def split: option.splits)

lemma DecodeLastRuneInString_width:
  "s \<noteq> [] \<Longrightarrow> 0 < snd (DecodeLastRuneInString s)"
  by (auto simp: DecodeLastRuneInString_def find_Some_iff split: option.splits prod.splits)

function TrimRightSpace :: "string \<Rightarrow> string" where
  "TrimRightSpace s =
     (if s = [] then []
      else if IsSpace (fst (DecodeLastRuneInString s))
      then TrimRightSpace (take (length s - snd (DecodeLastRuneInString s)) s)
      else s)"
  by pat_completeness auto

termination TrimRightSpace
  by (relation "measure length") (auto simp: DecodeLastRuneInString_width)

declare TrimRightSpace.simps [simp del]

definition strings_TrimSpace :: "string \<Rightarrow> string" where
  "strings_TrimSpace s = TrimRightSpace (TrimLeftSpace s)"

text \<open>
  \<open>strings.ReplaceAll(s, old, new)\<close> replaces the non-overlapping instances of
  \<open>old\<close>, from left to right. The program calls it with a non-empty \<open>old\<close> only;
  the case of an empty \<open>old\<close> (Go inserts \<open>new\<close> around every rune) is not modelled
  and returns \<open>s\<close>.
\<close>

function strings_ReplaceAll :: "string \<Rightarrow> string \<Rightarrow> string \<Rightarrow> string" where
  "strings_ReplaceAll [] old new = []"
| "strings_ReplaceAll (c # cs) old new =
     (if old = [] then c # cs
      else if prefix old (c # cs)
      then new @ strings_ReplaceAll (drop (length old) (c # cs)) old new
      else c # strings_ReplaceAll cs old new)"
  by pat_completeness auto

termination strings_ReplaceAll
  by (relation "measure (\<lambda>(s, old, new). length s)") auto

section \<open>cleanResponse\<close>

text \<open>
  \<^verbatim>\<open>
  func cleanResponse(response string) string {
      tldrRegex := regexp.MustCompile(`(?i)(^|\s)?tl;dr[:\-\s]*`)
      response = tldrRegex.ReplaceAllString(response, "")
      headerRegex := regexp.MustCompile(`(?m)^#+\s*.*\n?`)
      response = headerRegex.ReplaceAllString(response, "")
      response = strings.ReplaceAll(response, ".  ", ". ")
      response = strings.ReplaceAll(response, ",  ", ", ")
      response = strings.TrimSpace(response)
      return response
  }
  \<close>
  \<open>ReplaceAllString\<close> deletes the successive non-overlapping matches of the pattern,
  each the leftmost one from where the previous match ended, with the extent that
  leftmost-first matching gives it. Both patterns only test ASCII characters, and no
  ASCII byte is part of the encoding of another rune, so they are read byte-wise.
\<close>

subsection \<open>The pattern \<^verbatim>\<open>(?i)(^|\s)?tl;dr[:\-\s]*\<close>\<close>

text \<open>The class \<^verbatim>\<open>\s\<close> of Go's regular expressions: tab, newline, form feed,
  carriage return and space.\<close>

definition re_space :: "char \<Rightarrow> bool" where
  "re_space c = (c = CHR 0x09 \<or> c = CHR 0x0A \<or> c = CHR 0x0C \<or> c = CHR 0x0D \<or> c = CHR 0x20)"

text \<open>The class \<^verbatim>\<open>[:\-\s]\<close>.\<close>

definition label_sep :: "char \<Rightarrow> bool" where
  "label_sep c = (c = CHR '':'' \<or> c = CHR ''-'' \<or> re_space c)"

text \<open>The string starts with \<^verbatim>\<open>tl;dr\<close>, letters in either case (flag \<^verbatim>\<open>i\<close>).\<close>

fun tldr_prefix :: "string \<Rightarrow> bool" where
  "tldr_prefix (a # b # c # d # e # rest) =
     ((a = CHR ''t'' \<or> a = CHR ''T'') \<and> (b = CHR ''l'' \<or> b = CHR ''L'') \<and> c = CHR '';''
      \<and> (d = CHR ''d'' \<or> d = CHR ''D'') \<and> (e = CHR ''r'' \<or> e = CHR ''R''))"
| "tldr_prefix s = False"

text \<open>
  A match starts at a white-space character followed by the label, or at the
  label itself (then the optional group is empty); it extends over the label and the
  longest run of \<^verbatim>\<open>[:\-\s]\<close> after it. \<open>tldr_ReplaceAll\<close> is
  \<open>tldrRegex.ReplaceAllString(response, "")\<close>.
\<close>

function tldr_ReplaceAll :: "string \<Rightarrow> string" where
  "tldr_ReplaceAll [] = []"
| "tldr_ReplaceAll (c # cs) =
     (if re_space c \<and> tldr_prefix cs
      then tldr_ReplaceAll (dropWhile label_sep (drop 5 cs))
      else if tldr_prefix (c # cs)
      then tldr_ReplaceAll (dropWhile label_sep (drop 5 (c # cs)))
      else c # tldr_ReplaceAll cs)"
  by pat_completeness auto

termination tldr_ReplaceAll
  by (relation "measure length")
     (auto simp: less_Suc_eq_le intro: le_trans [OF length_dropWhile_le])

subsection \<open>The pattern \<^verbatim>\<open>(?m)^#+\s*.*\n?\<close>\<close>

text \<open>
  A match starts at a \<^verbatim>\<open>#\<close> at the beginning of a line (flag \<^verbatim>\<open>m\<close>: at the
  start of the text or after a newline). \<open>header_rest\<close> is the text after the match:
  past the run of \<^verbatim>\<open>#\<close>, the longest run of white space (newlines included), the
  rest of that line and its newline, if there is one.
\<close>

definition header_rest :: "string \<Rightarrow> string" where
  "header_rest s =
     (case dropWhile (\<lambda>c. c \<noteq> CHR 0x0A)
             (dropWhile re_space (dropWhile (\<lambda>c. c = CHR ''#'') s)) of
        [] \<Rightarrow> []
      | c # cs \<Rightarrow> cs)"

text \<open>
  \<open>header_ReplaceAll bol s\<close> is \<open>headerRegex.ReplaceAllString\<close> on the rest \<open>s\<close> of
  the text, \<open>bol\<close> telling whether \<open>s\<close> begins a line. After a match the scan is at
  the end of the text or just after a newline.
\<close>

function header_ReplaceAll :: "bool \<Rightarrow> string \<Rightarrow> string" where
  "header_ReplaceAll bol [] = []"
| "header_ReplaceAll bol (c # cs) =
     (if bol \<and> c = CHR ''#''
      then header_ReplaceAll True (header_rest (c # cs))
      else c # header_ReplaceAll (c = CHR 0x0A) cs)"
  by pat_completeness auto

lemma length_header_rest: "length (header_rest (CHR ''#'' # cs)) \<le> length cs"
proof -
  have "length (dropWhile (\<lambda>c. c \<noteq> CHR 0x0A)
          (dropWhile re_space (dropWhile (\<lambda>c. c = CHR ''#'') cs))) \<le> length cs"
    by (meson le_trans length_dropWhile_le)
  then show ?thesis
    by (auto simp: header_rest_def split: list.splits)
qed

termination header_ReplaceAll
  by (relation "measure (\<lambda>(bol, s). length s)")
     (auto simp: less_Suc_eq_le length_header_rest)

definition cleanResponse :: "string \<Rightarrow> string" where
  "cleanResponse response =
     strings_TrimSpace
       (strings_ReplaceAll
          (strings_ReplaceAll (header_ReplaceAll True (tldr_ReplaceAll response))
             ''.  '' ''. '')
          '',  '' '', '')"

section \<open>countWords\<close>

text \<open>
  \<^verbatim>\<open>
  func countWords(text string) int {
      inWord := false
      count := 0
      for _, r := range text {
          if unicode.IsSpace(r) {
              inWord = false
          } else if !inWord {
              inWord = true
              count++
          }
      }
      return count
  }
  \<close>
  The loop state is the pair \<open>(inWord, count)\<close>; one iteration is
  \<open>countWords_step\<close>. The count is a \<open>nat\<close>: a Go \<open>int\<close> has 64 bits and the
  count is at most the length of the string, so it never wraps.
\<close>

definition countWords_step :: "bool \<times> nat \<Rightarrow> rune \<Rightarrow> bool \<times> nat" where
  "countWords_step st r =
     (case st of (inWord, count) \<Rightarrow>
        if IsSpace r then (False, count)
        else if \<not> inWord then (True, count + 1)
        else (inWord, count))"

definition countWords :: "string \<Rightarrow> nat" where
  "countWords text = snd (foldl countWords_step (False, 0) (range_runes text))"

section \<open>Data model and collaborators\<close>

text \<open>
  An error value is modelled by its message, the text that \<open>err.Error()\<close> and the
  verb \<^verbatim>\<open>%v\<close> print. The records hold the fields of the go-mastodon types that
  the program reads. \<open>st_InReplyToID\<close> is \<open>None\<close> for a nil \<open>InReplyToID\<close> and
  otherwise its rendering by \<^verbatim>\<open>fmt.Sprintf("%v", ...)\<close>. \<open>n_Status\<close> is a pointer
  that may be nil.
\<close>

type_synonym error = string

record account =
  acc_ID :: string
  acc_Username :: string
  acc_Acct :: string
  acc_Bot :: bool

record status =
  st_ID :: string
  st_Account :: account
  st_Content :: string
  st_Visibility :: string
  st_InReplyToID :: "string option"
  st_SpoilerText :: string

record notification =
  n_Type :: string
  n_Account :: account
  n_Status :: "status option"

record toot =
  toot_Status :: string
  toot_InReplyToID :: string
  toot_Visibility :: string
  toot_SpoilerText :: string

datatype event = NotificationEvent notification | UpdateEvent status | OtherEvent

text \<open>The parse tree of package \<open>html\<close>: a node has a type, its data and its children.\<close>

datatype NodeType = ErrorNode | TextNode | DocumentNode | ElementNode | CommentNode | DoctypeNode

datatype html_node = Node NodeType string "html_node list"

text \<open>
  What the program does to the outside, in order: the calls to the Mastodon client,
  to the generation backends, and the lines it logs and prints.
\<close>

datatype effect =
    GetStatus string
  | PostStatus toot
  | AccountFollow string
  | GenerateContent string
  | OllamaRun string string
  | LogPrintf string
  | FmtPrintf string

text \<open>
  The collaborators are outside the program; each is a parameter. A call may depend
  on and change the state of the outside world, of an arbitrary type \<open>'w\<close>.
  \<open>cfg_Provider\<close> and \<open>cfg_OllamaModel\<close> are the fields of \<open>config.LLM\<close>,
  \<open>MASTODON_USERNAME\<close> the value of that environment variable. A candidate of a
  Gemini response is \<open>None\<close> when its content is nil and otherwise the list of its
  parts, each as \<^verbatim>\<open>%v\<close> prints it. \<open>strings_ToLower\<close> stands for
  \<open>strings.ToLower\<close>, whose Unicode case tables are not modelled.
\<close>

record 'w env =
  cfg_Provider :: string
  cfg_OllamaModel :: string
  MASTODON_USERNAME :: string
  html_Parse :: "string \<Rightarrow> error + html_node"
  strings_ToLower :: "string \<Rightarrow> string"
  client_GetStatus :: "'w \<Rightarrow> string \<Rightarrow> (error + status) \<times> 'w"
  client_PostStatus :: "'w \<Rightarrow> toot \<Rightarrow> error option \<times> 'w"
  client_AccountFollow :: "'w \<Rightarrow> string \<Rightarrow> error option \<times> 'w"
  model_GenerateContent :: "'w \<Rightarrow> string \<Rightarrow> (error + string list option list) \<times> 'w"
  ollama_Run :: "'w \<Rightarrow> string \<Rightarrow> string \<Rightarrow> (error + string) \<times> 'w"

text \<open>The state threaded through the program: the outside world and the effects so far.\<close>

record 'w bot_state =
  world :: 'w
  trace :: "effect list"

definition emit :: "effect \<Rightarrow> 'w bot_state \<Rightarrow> 'w bot_state" where
  "emit e s = s\<lparr>trace := trace s @ [e]\<rparr>"

definition call :: "('w \<Rightarrow> 'a \<times> 'w) \<Rightarrow> effect \<Rightarrow> 'w bot_state \<Rightarrow> 'a \<times> 'w bot_state" where
  "call f e s = (case f (world s) of (r, w') \<Rightarrow> (r, \<lparr>world = w', trace = trace s @ [e]\<rparr>))"

text \<open>How a handler ends: it returns, or it dereferences a nil pointer and panics.\<close>

datatype 'w outcome = Returned "'w bot_state" | NilDereference "'w bot_state"

section \<open>extractTextFromHTML\<close>

text \<open>
  \<^verbatim>\<open>
  func extractTextFromHTML(content string) string {
      doc, err := html.Parse(strings.NewReader(content))
      if err != nil {
          log.Printf("Error parsing HTML: %v", err)
          return content
      }
      var extractText func(*html.Node) string
      extractText = func(n *html.Node) string {
          if n.Type == html.TextNode {
              return n.Data
          }
          var result string
          for c := n.FirstChild; c != nil; c = c.NextSibling {
              result += extractText(c)
          }
          return result
      }
      return extractText(doc)
  }
  \<close>
\<close>

fun extractText :: "html_node \<Rightarrow> string" where
  "extractText (Node t d cs) =
     (if t = TextNode then d else foldl (\<lambda>result c. result @ extractText c) [] cs)"

definition extractTextFromHTML :: "'w env \<Rightarrow> 'w bot_state \<Rightarrow> string \<Rightarrow> string \<times> 'w bot_state" where
  "extractTextFromHTML env s content =
     (case html_Parse env content of
        Inl err \<Rightarrow> (content, emit (LogPrintf (''Error parsing HTML: '' @ err)) s)
      | Inr doc \<Rightarrow> (extractText doc, s))"

section \<open>fetchThread\<close>

text \<open>
  \<^verbatim>\<open>
  func fetchThread(c *mastodon.Client, status *mastodon.Status) (string, error) {
      var thread []string
      currentStatus := status
      for currentStatus != nil {
          content := extractTextFromHTML(currentStatus.Content)
          thread = append([]string{fmt.Sprintf("%s: %s", currentStatus.Account.Username, content)}, thread...)
          if currentStatus.InReplyToID == nil {
              break
          }
          parentID := mastodon.ID(fmt.Sprintf("%v", currentStatus.InReplyToID))
          parentStatus, err := c.GetStatus(ctx, parentID)
          if err != nil {
              log.Printf("Error fetching parent status: %v", err)
              break
          }
          currentStatus = parentStatus
      }
      return strings.Join(thread, "\n\n"), nil
  }
  \<close>
  The loop need not end (the parents may form a cycle), so it is a partial function:
  \<open>None\<close> is the run that never returns. \<open>GetStatus\<close> returns a status or an error,
  never nil without an error.
\<close>

definition thread_line :: "status \<Rightarrow> string \<Rightarrow> string" where
  "thread_line cur content = acc_Username (st_Account cur) @ '': '' @ content"

partial_function (option) fetchThread_loop ::
  "'w env \<Rightarrow> 'w bot_state \<Rightarrow> string list \<Rightarrow> status option \<Rightarrow> (string list \<times> 'w bot_state) option"
where
  "fetchThread_loop env s thread currentStatus =
     (case currentStatus of
        None \<Rightarrow> Some (thread, s)
      | Some cur \<Rightarrow>
          (case extractTextFromHTML env s (st_Content cur) of
             (content, s1) \<Rightarrow>
               (case st_InReplyToID cur of
                  None \<Rightarrow> Some (thread_line cur content # thread, s1)
                | Some parentID \<Rightarrow>
                    (case call (\<lambda>w. client_GetStatus env w parentID) (GetStatus parentID) s1 of
                       (Inl err, s2) \<Rightarrow>
                         Some (thread_line cur content # thread,
                               emit (LogPrintf (''Error fetching parent status: '' @ err)) s2)
                     | (Inr parentStatus, s2) \<Rightarrow>
                         fetchThread_loop env s2 (thread_line cur content # thread)
                           (Some parentStatus)))))"

declare fetchThread_loop.simps [code]

definition fetchThread ::
  "'w env \<Rightarrow> 'w bot_state \<Rightarrow> status option \<Rightarrow> ((string \<times> error option) \<times> 'w bot_state) option"
where
  "fetchThread env s status =
     (case fetchThread_loop env s [] status of
        None \<Rightarrow> None
      | Some (thread, s') \<Rightarrow> Some ((strings_Join thread ''\<newline>\<newline>'', None), s'))"

section \<open>summarizeThread and the generation backends\<close>

text \<open>
  \<^verbatim>\<open>
  func getResponse(resp *genai.GenerateContentResponse) string {
      var response string
      for _, cand := range resp.Candidates {
          if cand.Content != nil {
              for _, part := range cand.Content.Parts {
                  response += fmt.Sprintf("%v", part)
              }
          }
      }
      return response
  }
  \<close>
\<close>

definition getResponse :: "string list option list \<Rightarrow> string" where
  "getResponse resp =
     foldl (\<lambda>response cand.
              case cand of
                None \<Rightarrow> response
              | Some parts \<Rightarrow> foldl (\<lambda>response part. response @ part) response parts)
       [] resp"

definition generateWithGemini ::
  "'w env \<Rightarrow> 'w bot_state \<Rightarrow> string \<Rightarrow> (error + string) \<times> 'w bot_state" where
  "generateWithGemini env s prompt =
     (case call (\<lambda>w. model_GenerateContent env w prompt) (GenerateContent prompt) s of
        (Inl err, s') \<Rightarrow> (Inl err, s')
      | (Inr resp, s') \<Rightarrow> (Inr (getResponse resp), s'))"

definition generateWithOllama ::
  "'w env \<Rightarrow> 'w bot_state \<Rightarrow> string \<Rightarrow> (error + string) \<times> 'w bot_state" where
  "generateWithOllama env s prompt =
     (case call (\<lambda>w. ollama_Run env w (cfg_OllamaModel env) prompt)
             (OllamaRun (cfg_OllamaModel env) prompt) s of
        (Inl err, s') \<Rightarrow> (Inl err, s')
      | (Inr out, s') \<Rightarrow> (Inr out, s'))"

text \<open>
  \<^verbatim>\<open>
  func summarizeThread(thread string, isSinglePost bool) (string, error) {
      var prompt string
      if !isSinglePost {
          prompt = fmt.Sprintf("Write a TL;DR summary for this conversation. Reply with just the TL;DR and nothing else:\n%s", thread)
      } else {
          prompt = fmt.Sprintf("Write a TL;DR summary for this post. Refer to the Original poster as OP. Reply with just the TL;DR and nothing else:\n%s", thread)
      }
      switch config.LLM.Provider {
      case "gemini":
          return generateWithGemini(prompt)
      case "ollama":
          return generateWithOllama(prompt)
      default:
          return "", fmt.Errorf("unsupported LLM provider: %s", config.LLM.Provider)
      }
  }
  \<close>
\<close>

definition summarizeThread ::
  "'w env \<Rightarrow> 'w bot_state \<Rightarrow> string \<Rightarrow> bool \<Rightarrow> (error + string) \<times> 'w bot_state" where
  "summarizeThread env s thread isSinglePost =
     (let prompt =
        (if \<not> isSinglePost
         then ''Write a TL;DR summary for this conversation. Reply with just the TL;DR and nothing else:\<newline>'' @ thread
         else ''Write a TL;DR summary for this post. Refer to the Original poster as OP. Reply with just the TL;DR and nothing else:\<newline>'' @ thread)
      in
        if cfg_Provider env = ''gemini'' then generateWithGemini env s prompt
        else if cfg_Provider env = ''ollama'' then generateWithOllama env s prompt
        else (Inl (''unsupported LLM provider: '' @ cfg_Provider env), s))"

section \<open>The handlers\<close>

text \<open>
  \<^verbatim>\<open>
  func handleFollowBack(c *mastodon.Client, userID mastodon.ID) {
      _, err := c.AccountFollow(ctx, userID)
      if err != nil {
          log.Printf("Error following back: %v", err)
      } else {
          fmt.Printf("Followed back user: %s\n", userID)
      }
  }
  \<close>
\<close>

definition handleFollowBack :: "'w env \<Rightarrow> 'w bot_state \<Rightarrow> string \<Rightarrow> 'w bot_state" where
  "handleFollowBack env s userID =
     (case call (\<lambda>w. client_AccountFollow env w userID) (AccountFollow userID) s of
        (Some err, s') \<Rightarrow> emit (LogPrintf (''Error following back: '' @ err)) s'
      | (None, s') \<Rightarrow> emit (FmtPrintf (''Followed back user: '' @ userID @ ''\<newline>'')) s')"

text \<open>
  \<^verbatim>\<open>
  func handleMention(c *mastodon.Client, notification *mastodon.Notification) {
      if notification.Account.Acct == os.Getenv("MASTODON_USERNAME") || notification.Status.Account.Bot {
          return
      }
      thread, err := fetchThread(c, notification.Status)
      if err != nil {
          log.Printf("Error fetching thread: %v", err)
          return
      }
      summary, err := summarizeThread(thread, false)
      if err != nil {
          log.Printf("Error summarizing thread: %v", err)
          summary = "uh oh, something went wrong. can't summarize this thread.\n" + err.Error()
      }
      summary = cleanResponse(summary)
      response := fmt.Sprintf("@%s TL;DR: %s", notification.Account.Acct, summary)
      visibility := notification.Status.Visibility
      if visibility == "public" {
          visibility = "unlisted"
      }
      // Prepare the content warning for the reply
      contentWarning := notification.Status.SpoilerText
      if contentWarning != "" && !strings.HasPrefix(contentWarning, "re:") {
          contentWarning = "re: " + contentWarning
      }
      _, err = c.PostStatus(ctx, &mastodon.Toot{
          Status:      response,
          InReplyToID: notification.Status.ID,
          Visibility:  visibility,
          SpoilerText: contentWarning,
      })
      if err != nil {
          log.Printf("Error posting summary: %v", err)
      } else {
          fmt.Printf("Posted summary: %s\n", response)
      }
  }
  \<close>
\<close>

definition handleMention ::
  "'w env \<Rightarrow> 'w bot_state \<Rightarrow> notification \<Rightarrow> 'w outcome option" where
  "handleMention env s notification =
     (if acc_Acct (n_Account notification) = MASTODON_USERNAME env then Some (Returned s)
      else case n_Status notification of
        None \<Rightarrow> Some (NilDereference s)
      | Some nstatus \<Rightarrow>
          if acc_Bot (st_Account nstatus) then Some (Returned s)
          else
            (case fetchThread env s (Some nstatus) of
               None \<Rightarrow> None
             | Some ((thread, Some err), s1) \<Rightarrow>
                 Some (Returned (emit (LogPrintf (''Error fetching thread: '' @ err)) s1))
             | Some ((thread, None), s1) \<Rightarrow>
                 (case summarizeThread env s1 thread False of
                    (res, s2) \<Rightarrow>
                      (case (case res of
                               Inl err \<Rightarrow>
                                 (''uh oh, something went wrong. can't summarize this thread.\<newline>'' @ err,
                                  emit (LogPrintf (''Error summarizing thread: '' @ err)) s2)
                             | Inr summary \<Rightarrow> (summary, s2)) of
                         (summary, s3) \<Rightarrow>
                           (let summary = cleanResponse summary;
                                response = ''@'' @ acc_Acct (n_Account notification) @ '' TL;DR: ''
                                             @ summary;
                                visibility = st_Visibility nstatus;
                                visibility =
                                  (if visibility = ''public'' then ''unlisted'' else visibility);
                                contentWarning = st_SpoilerText nstatus;
                                contentWarning =
                                  (if contentWarning \<noteq> []
                                      \<and> \<not> strings_HasPrefix contentWarning ''re:''
                                   then ''re: '' @ contentWarning else contentWarning);
                                t = \<lparr>toot_Status = response, toot_InReplyToID = st_ID nstatus,
                                     toot_Visibility = visibility,
                                     toot_SpoilerText = contentWarning\<rparr>
                            in
                              (case call (\<lambda>w. client_PostStatus env w t) (PostStatus t) s3 of
                                 (Some err, s4) \<Rightarrow>
                                   Some (Returned
                                     (emit (LogPrintf (''Error posting summary: '' @ err)) s4))
                               | (None, s4) \<Rightarrow>
                                   Some (Returned
                                     (emit (FmtPrintf (''Posted summary: '' @ response
                                                       @ ''\<newline>'')) s4))))))))"

text \<open>
  \<^verbatim>\<open>
  func checkForLongPost(c *mastodon.Client, status *mastodon.Status) {
      content := extractTextFromHTML(status.Content)
      wordCount := countWords(content)
      if wordCount > 200 && !strings.Contains(strings.ToLower(content), "tl;dr") {
          summary, err := summarizeThread(content, true)
          if err != nil {
              log.Printf("Error generating TL;DR: %v", err)
              return
          }
          summary = cleanResponse(summary)
          response := fmt.Sprintf("@%s TL;DR: %s", status.Account.Acct, summary)
          // Prepare the content warning for the reply
          contentWarning := status.SpoilerText
          if contentWarning != "" && !strings.HasPrefix(contentWarning, "re:") {
              contentWarning = "re: " + contentWarning
          }
          _, err = c.PostStatus(ctx, &mastodon.Toot{
              Status:      response,
              InReplyToID: status.ID,
              Visibility:  status.Visibility,
              SpoilerText: contentWarning,
          })
          if err != nil {
              log.Printf("Error posting TL;DR: %v", err)
          } else {
              fmt.Printf("Posted TL;DR for user %s\n", status.Account.Acct)
          }
      }
  }
  \<close>
  \<open>long_post\<close> is the condition of the \<open>if\<close>, on the extracted text.
\<close>

definition long_post :: "'w env \<Rightarrow> string \<Rightarrow> bool" where
  "long_post env content =
     (let wordCount = countWords content in
      wordCount > 200 \<and> \<not> strings_Contains (strings_ToLower env content) ''tl;dr'')"

definition checkForLongPost :: "'w env \<Rightarrow> 'w bot_state \<Rightarrow> status \<Rightarrow> 'w bot_state" where
  "checkForLongPost env s status =
     (case extractTextFromHTML env s (st_Content status) of
        (content, s1) \<Rightarrow>
          if long_post env content then
            (case summarizeThread env s1 content True of
               (Inl err, s2) \<Rightarrow> emit (LogPrintf (''Error generating TL;DR: '' @ err)) s2
             | (Inr summary, s2) \<Rightarrow>
                 (let summary = cleanResponse summary;
                      response = ''@'' @ acc_Acct (st_Account status) @ '' TL;DR: '' @ summary;
                      contentWarning = st_SpoilerText status;
                      contentWarning =
                        (if contentWarning \<noteq> [] \<and> \<not> strings_HasPrefix contentWarning ''re:''
                         then ''re: '' @ contentWarning else contentWarning);
                      t = \<lparr>toot_Status = response, toot_InReplyToID = st_ID status,
                           toot_Visibility = st_Visibility status,
                           toot_SpoilerText = contentWarning\<rparr>
                  in
                    (case call (\<lambda>w. client_PostStatus env w t) (PostStatus t) s2 of
                       (Some err, s3) \<Rightarrow> emit (LogPrintf (''Error posting TL;DR: '' @ err)) s3
                     | (None, s3) \<Rightarrow>
                         emit (FmtPrintf (''Posted TL;DR for user '' @ acc_Acct (st_Account status)
                                          @ ''\<newline>'')) s3)))
          else s1)"

section \<open>The event loop\<close>

text \<open>
  \<^verbatim>\<open>
  for event := range events {
      switch e := event.(type) {
      case *mastodon.NotificationEvent:
          if e.Notification.Type == "mention" {
              if e.Notification.Account.Bot {
                  break
              }
              handleMention(c, e.Notification)
          } else if e.Notification.Type == "follow" {
              if e.Notification.Account.Bot {
                  break
              }
              handleFollowBack(c, e.Notification.Account.ID)
          }
      case *mastodon.UpdateEvent:
          if e.Status.Account.Bot {
              break
          }
          checkForLongPost(c, e.Status)
      }
  }
  \<close>
  \<open>handle_event\<close> is one iteration of the loop of \<open>main\<close>; \<open>event_loop\<close> runs the
  iterations for a list of events, and stops at a panic.
\<close>

definition handle_event :: "'w env \<Rightarrow> 'w bot_state \<Rightarrow> event \<Rightarrow> 'w outcome option" where
  "handle_event env s event =
     (case event of
        NotificationEvent n \<Rightarrow>
          if n_Type n = ''mention'' then
            (if acc_Bot (n_Account n) then Some (Returned s) else handleMention env s n)
          else if n_Type n = ''follow'' then
            (if acc_Bot (n_Account n) then Some (Returned s)
             else Some (Returned (handleFollowBack env s (acc_ID (n_Account n)))))
          else Some (Returned s)
      | UpdateEvent status \<Rightarrow>
          if acc_Bot (st_Account status) then Some (Returned s)
          else Some (Returned (checkForLongPost env s status))
      | OtherEvent \<Rightarrow> Some (Returned s))"

fun event_loop :: "'w env \<Rightarrow> 'w bot_state \<Rightarrow> event list \<Rightarrow> 'w outcome option" where
  "event_loop env s [] = Some (Returned s)"
| "event_loop env s (event # events) =
     (case handle_event env s event of
        None \<Rightarrow> None
      | Some (NilDereference s') \<Rightarrow> Some (NilDereference s')
      | Some (Returned s') \<Rightarrow> event_loop env s' events)"

section \<open>Observing a run\<close>

text \<open>
  The effects a handler adds to the trace, the toots among them (the replies posted),
  and the state in which a handler ends.
\<close>

definition new_effects :: "'w bot_state \<Rightarrow> 'w bot_state \<Rightarrow> effect list" where
  "new_effects s s' = drop (length (trace s)) (trace s')"

fun posts :: "effect list \<Rightarrow> toot list" where
  "posts [] = []"
| "posts (PostStatus t # es) = t # posts es"
| "posts (e # es) = posts es"

fun final_state :: "'w outcome \<Rightarrow> 'w bot_state" where
  "final_state (Returned s) = s"
| "final_state (NilDereference s) = s"

text \<open>
  An effect is quiet when it is neither a posted toot nor the line that
  \<open>handleMention\<close> logs when \<open>fetchThread\<close> returns an error.
\<close>

fun quiet_effect :: "effect \<Rightarrow> bool" where
  "quiet_effect (PostStatus t) = False"
| "quiet_effect (LogPrintf m) = (\<not> prefix ''Error fetching thread: '' m)"
| "quiet_effect e = True"

text \<open>
  The text \<open>extractTextFromHTML\<close> returns for a content, the line of the transcript
  that \<open>fetchThread\<close> makes of a status, and the message that \<open>handleMention\<close>
  substitutes for the summary when \<open>summarizeThread\<close> fails.
\<close>

definition plain_text :: "'w env \<Rightarrow> string \<Rightarrow> string" where
  "plain_text env content =
     (case html_Parse env content of Inl err \<Rightarrow> content | Inr doc \<Rightarrow> extractText doc)"

definition transcript_line :: "'w env \<Rightarrow> status \<Rightarrow> string" where
  "transcript_line env st = thread_line st (plain_text env (st_Content st))"

definition apology :: "error \<Rightarrow> string" where
  "apology err = ''uh oh, something went wrong. can't summarize this thread.\<newline>'' @ err"

text \<open>The toot that \<open>handleMention\<close> composes from the text handed to \<open>cleanResponse\<close>.\<close>

definition mention_toot :: "notification \<Rightarrow> status \<Rightarrow> string \<Rightarrow> toot" where
  "mention_toot n st summary =
     \<lparr>toot_Status = ''@'' @ acc_Acct (n_Account n) @ '' TL;DR: '' @ cleanResponse summary,
      toot_InReplyToID = st_ID st,
      toot_Visibility = (if st_Visibility st = ''public'' then ''unlisted'' else st_Visibility st),
      toot_SpoilerText =
        (if st_SpoilerText st \<noteq> [] \<and> \<not> prefix ''re:'' (st_SpoilerText st)
         then ''re: '' @ st_SpoilerText st else st_SpoilerText st)\<rparr>"

text \<open>
  \<open>climbs env w cur below w' anc\<close>: from the status \<open>cur\<close>, in the world \<open>w\<close>, the
  successive fetches of the parent succeed and lead to the status \<open>anc\<close> and the world
  \<open>w'\<close>; \<open>below\<close> are the statuses passed on the way, \<open>cur\<close> first, \<open>anc\<close> excluded.
\<close>

inductive climbs :: "'w env \<Rightarrow> 'w \<Rightarrow> status \<Rightarrow> status list \<Rightarrow> 'w \<Rightarrow> status \<Rightarrow> bool" where
  climbs_here: "climbs env w cur [] w cur"
| climbs_up:
    "st_InReplyToID cur = Some parentID \<Longrightarrow> client_GetStatus env w parentID = (Inr parent, w1)
     \<Longrightarrow> climbs env w1 parent below w2 anc
     \<Longrightarrow> climbs env w cur (cur # below) w2 anc"

section \<open>Example data\<close>

text \<open>
  A thread of three statuses, \<open>status_C\<close> replying to \<open>status_B\<close> replying to
  \<open>status_A\<close>, and collaborators that answer from it. The world counts the fetches.
  The parser stands for \<open>html.Parse\<close> on contents without markup; the lower-casing is
  that of \<open>strings.ToLower\<close> on ASCII text.
\<close>

definition ascii_ToLower :: "string \<Rightarrow> string" where
  "ascii_ToLower s =
     map (\<lambda>c. if (65::nat) \<le> of_char c \<and> (of_char c :: nat) \<le> 90
              then char_of (of_char c + (32::nat)) else c) s"

definition alice :: account where
  "alice = \<lparr>acc_ID = ''1001'', acc_Username = ''alice'', acc_Acct = ''alice'', acc_Bot = False\<rparr>"

definition bob :: account where
  "bob = \<lparr>acc_ID = ''1002'', acc_Username = ''bob'', acc_Acct = ''bob@example.social'',
           acc_Bot = False\<rparr>"

definition carol :: account where
  "carol = \<lparr>acc_ID = ''1003'', acc_Username = ''carol'', acc_Acct = ''carol'', acc_Bot = False\<rparr>"

definition newsbot :: account where
  "newsbot = \<lparr>acc_ID = ''1004'', acc_Username = ''news'', acc_Acct = ''news'', acc_Bot = True\<rparr>"

definition status_A :: status where
  "status_A = \<lparr>st_ID = ''101'', st_Account = alice, st_Content = ''Is the release out?'',
     st_Visibility = ''public'', st_InReplyToID = None, st_SpoilerText = []\<rparr>"

definition status_B :: status where
  "status_B = \<lparr>st_ID = ''102'', st_Account = bob, st_Content = ''Yes, since Monday.'',
     st_Visibility = ''public'', st_InReplyToID = Some ''101'', st_SpoilerText = []\<rparr>"

definition status_C :: status where
  "status_C = \<lparr>st_ID = ''103'', st_Account = carol, st_Content = ''@tldr what happened?'',
     st_Visibility = ''public'', st_InReplyToID = Some ''102'', st_SpoilerText = ''spoilers''\<rparr>"

definition example_env :: "nat env" where
  "example_env =
     \<lparr>cfg_Provider = ''gemini'', cfg_OllamaModel = ''llava-phi3'', MASTODON_USERNAME = ''tldr'',
      html_Parse = (\<lambda>content. Inr (Node DocumentNode [] [Node ElementNode ''html''
                     [Node ElementNode ''head'' [], Node ElementNode ''body''
                        [Node TextNode content []]]])),
      strings_ToLower = ascii_ToLower,
      client_GetStatus = (\<lambda>w parentID.
         (if parentID = ''101'' then Inr status_A
          else if parentID = ''102'' then Inr status_B
          else Inl ''404 Not Found'', Suc w)),
      client_PostStatus = (\<lambda>w t. (None, w)),
      client_AccountFollow = (\<lambda>w userID. (None, w)),
      model_GenerateContent =
        (\<lambda>w prompt. (Inr [Some [''The release is out '', ''since Monday.'']], w)),
      ollama_Run = (\<lambda>w m prompt. (Inl ''exit status 1'', w))\<rparr>"

text \<open>The same, with a client that cannot fetch \<open>status_A\<close>.\<close>

definition lossy_env :: "nat env" where
  "lossy_env =
     example_env\<lparr>client_GetStatus := (\<lambda>w parentID.
        (if parentID = ''102'' then Inr status_B else Inl ''404 Not Found'', Suc w))\<rparr>"

definition start :: "nat bot_state" where
  "start = \<lparr>world = 0, trace = []\<rparr>"

section \<open>Properties of the thread walk\<close>

lemma extract_fst: "fst (extractTextFromHTML env s c) = plain_text env c"
  by (simp add: extractTextFromHTML_def plain_text_def split: sum.splits)

lemma extract_world: "world (snd (extractTextFromHTML env s c)) = world s"
  by (simp add: extractTextFromHTML_def emit_def split: sum.splits)

lemma extract_eq:
  "extractTextFromHTML env s c = (plain_text env c, snd (extractTextFromHTML env s c))"
  by (metis extract_fst prod.collapse)

lemma extract_trace:
  "\<exists>new. trace (snd (extractTextFromHTML env s c)) = trace s @ new \<and> list_all quiet_effect new"
  by (auto simp: extractTextFromHTML_def emit_def split: sum.splits)

lemma posts_append: "posts (xs @ ys) = posts xs @ posts ys"
  by (induction xs rule: posts.induct) auto

lemma posts_quiet: "list_all quiet_effect es \<Longrightarrow> posts es = []"
  by (induction es rule: posts.induct) auto

lemma fetchThread_loop_trace:
  assumes "fetchThread_loop env s thread cur = Some r"
  shows "\<exists>new. trace (snd r) = trace s @ new \<and> list_all quiet_effect new"
proof (rule fetchThread_loop.raw_induct
    [where P = "\<lambda>env s thread cur r. \<exists>new. trace (snd r) = trace s @ new \<and> list_all quiet_effect new",
     OF _ assms], goal_cases)
  case (1 loop env s thread cur r)
  show ?case
  proof (cases cur)
    case None
    with 1(2) show ?thesis by auto
  next
    case (Some c)
    obtain content s1 where ex: "extractTextFromHTML env s (st_Content c) = (content, s1)"
      by (cases "extractTextFromHTML env s (st_Content c)")
    from extract_trace [of env s "st_Content c"] ex
    obtain new1 where n1: "trace s1 = trace s @ new1" "list_all quiet_effect new1"
      by auto
    show ?thesis
    proof (cases "st_InReplyToID c")
      case None
      with 1(2) Some ex n1 show ?thesis by auto
    next
      case (Some parentID)
      obtain res s2 where
        c: "call (\<lambda>w. client_GetStatus env w parentID) (GetStatus parentID) s1 = (res, s2)"
        by (cases "call (\<lambda>w. client_GetStatus env w parentID) (GetStatus parentID) s1")
      then have t2: "trace s2 = trace s1 @ [GetStatus parentID]"
        by (auto simp: call_def split: prod.splits)
      show ?thesis
      proof (cases res)
        case (Inl err)
        with 1(2) \<open>cur = Some c\<close> Some ex c
        have "snd r = emit (LogPrintf (''Error fetching parent status: '' @ err)) s2" by auto
        with t2 n1 show ?thesis by (simp add: emit_def)
      next
        case (Inr parent)
        with 1(2) \<open>cur = Some c\<close> Some ex c
        have "loop env s2 (thread_line c content # thread) (Some parent) = Some r"
          by simp
        from 1(1) [OF this] obtain new2 where
          "trace (snd r) = trace s2 @ new2" "list_all quiet_effect new2"
          by auto
        with t2 n1 show ?thesis by simp
      qed
    qed
  qed
qed

lemma fetchThread_trace:
  assumes "fetchThread env s status = Some ((thread, err), s1)"
  shows "err = None \<and> (\<exists>new. trace s1 = trace s @ new \<and> list_all quiet_effect new)"
proof -
  from assms obtain th where "fetchThread_loop env s [] status = Some (th, s1)" and "err = None"
    by (auto simp: fetchThread_def split: option.splits)
  with fetchThread_loop_trace [of env s "[]" status "(th, s1)"] show ?thesis by simp
qed

lemma loop_root:
  "st_InReplyToID anc = None
   \<Longrightarrow> fetchThread_loop env s thread (Some anc)
       = Some (transcript_line env anc # thread, snd (extractTextFromHTML env s (st_Content anc)))"
  by (subst fetchThread_loop.simps, subst extract_eq) (simp add: transcript_line_def)

lemma loop_fail:
  assumes "st_InReplyToID anc = Some parentID"
    and "client_GetStatus env (world s) parentID = (Inl err, w')"
  shows "\<exists>s'. fetchThread_loop env s thread (Some anc) = Some (transcript_line env anc # thread, s')
           \<and> world s' = w'
           \<and> (\<exists>pre. trace s' = pre @ [GetStatus parentID,
                         LogPrintf (''Error fetching parent status: '' @ err)])"
  using assms extract_world [of env s "st_Content anc"]
  by (subst fetchThread_loop.simps, subst extract_eq)
     (simp add: transcript_line_def call_def emit_def)

lemma loop_step:
  assumes "st_InReplyToID cur = Some parentID"
    and "client_GetStatus env (world s) parentID = (Inr parent, w1)"
  shows "fetchThread_loop env s thread (Some cur)
           = fetchThread_loop env
               \<lparr>world = w1,
                trace = trace (snd (extractTextFromHTML env s (st_Content cur)))
                          @ [GetStatus parentID]\<rparr>
               (transcript_line env cur # thread) (Some parent)"
  using assms extract_world [of env s "st_Content cur"]
  by (subst fetchThread_loop.simps, subst extract_eq)
     (simp add: transcript_line_def call_def)

lemma loop_climbs:
  "climbs env w cur below w2 anc \<Longrightarrow> world s = w
   \<Longrightarrow> \<exists>s2. world s2 = w2
         \<and> fetchThread_loop env s thread (Some cur)
             = fetchThread_loop env s2 (map (transcript_line env) (rev below) @ thread) (Some anc)"
proof (induction arbitrary: s thread rule: climbs.induct)
  case (climbs_here env w cur)
  then show ?case by auto
next
  case (climbs_up cur parentID env w parent w1 below w2 anc)
  from loop_step [of cur parentID env s parent w1 thread] climbs_up.hyps(1,2) climbs_up.prems
  obtain s1 where s1: "world s1 = w1"
    "fetchThread_loop env s thread (Some cur)
       = fetchThread_loop env s1 (transcript_line env cur # thread) (Some parent)"
    by (metis bot_state.select_convs(1))
  from climbs_up.IH [OF s1(1), of "transcript_line env cur # thread"] s1(2)
  show ?case by auto
qed

section \<open>Properties of the handlers\<close>

lemma summarizeThread_trace:
  assumes "summarizeThread env s thread b = (res, s2)"
  shows "\<exists>new. trace s2 = trace s @ new \<and> list_all quiet_effect new"
  using assms
  by (auto simp: summarizeThread_def generateWithGemini_def generateWithOllama_def call_def Let_def
           split: if_splits prod.splits sum.splits)

lemma handleMention_replies:
  assumes "handleMention env s n = Some out"
    and "acc_Acct (n_Account n) \<noteq> MASTODON_USERNAME env"
    and "n_Status n = Some st" and "\<not> acc_Bot (st_Account st)"
  shows "\<exists>thread s1 res s2 pre fin s'.
           fetchThread env s (Some st) = Some ((thread, None), s1)
         \<and> summarizeThread env s1 thread False = (res, s2)
         \<and> out = Returned s'
         \<and> trace s' = trace s @ pre
               @ [PostStatus (mention_toot n st
                     (case res of Inl err \<Rightarrow> apology err | Inr summary \<Rightarrow> summary)),
                  fin]
         \<and> list_all quiet_effect pre \<and> quiet_effect fin"
proof -
  from assms obtain thread err s1 where ft: "fetchThread env s (Some st) = Some ((thread, err), s1)"
    by (auto simp: handleMention_def split: option.splits)
  from fetchThread_trace [OF ft] obtain fx where
    fx: "err = None" "trace s1 = trace s @ fx" "list_all quiet_effect fx" by auto
  obtain res s2 where su: "summarizeThread env s1 thread False = (res, s2)"
    by (cases "summarizeThread env s1 thread False")
  from summarizeThread_trace [OF su] obtain gx where
    gx: "trace s2 = trace s1 @ gx" "list_all quiet_effect gx" by auto
  show ?thesis
  proof (cases res)
    case (Inl e)
    with assms ft fx su gx show ?thesis
      by (auto simp: handleMention_def mention_toot_def apology_def Let_def call_def emit_def
                     strings_HasPrefix_def
               split: prod.splits option.splits)
  next
    case (Inr summary)
    with assms ft fx su gx show ?thesis
      by (auto simp: handleMention_def mention_toot_def apology_def Let_def call_def emit_def
                     strings_HasPrefix_def
               split: prod.splits option.splits)
  qed
qed

definition mention_C :: notification where
  "mention_C = \<lparr>n_Type = ''mention'', n_Account = carol, n_Status = Some status_C\<rparr>"

lemma example_fetch:
  "fetchThread example_env start (Some status_C)
     = Some ((''alice: Is the release out?\<newline>\<newline>bob: Yes, since Monday.\<newline>\<newline>carol: @tldr what happened?'', None),
             \<lparr>world = 2, trace = [GetStatus ''102'', GetStatus ''101'']\<rparr>)"
  by code_simp

lemma example_mention:
  "handleMention example_env start mention_C
     = Some (Returned \<lparr>world = 2, trace =
         [GetStatus ''102'', GetStatus ''101'',
          GenerateContent
           ''Write a TL;DR summary for this conversation. Reply with just the TL;DR and nothing else:\<newline>alice: Is the release out?\<newline>\<newline>bob: Yes, since Monday.\<newline>\<newline>carol: @tldr what happened?'',
          PostStatus
           \<lparr>toot_Status = ''@carol TL;DR: The release is out since Monday.'',
              toot_InReplyToID = ''103'', toot_Visibility = ''unlisted'',
              toot_SpoilerText = ''re: spoilers''\<rparr>,
          FmtPrintf ''Posted summary: @carol TL;DR: The release is out since Monday.\<newline>'']\<rparr>)"
  by code_simp

section \<open>The thread walk: claims C6, C7 and C9\<close>

text \<open>
  Claim C6. On a reply chain in which \<open>C\<close> replies to \<open>B\<close>, \<open>B\<close> replies to \<open>A\<close>,
  both parent fetches succeed and \<open>A\<close> has no parent, \<open>fetchThread\<close> started at \<open>C\<close>
  returns the transcript lines of \<open>A\<close>, \<open>B\<close>, \<open>C\<close> in this order, root first, joined
  by blank lines. The loop puts each line in front of all that it has collected so
  far: started with any list \<open>thread\<close>, it ends with the three lines before \<open>thread\<close>.
\<close>

theorem fetchThread_chain:
  assumes "st_InReplyToID C = Some idB" and "client_GetStatus env (world s) idB = (Inr B, w1)"
    and "st_InReplyToID B = Some idA" and "client_GetStatus env w1 idA = (Inr A, w2)"
    and "st_InReplyToID A = None"
  shows "(\<exists>s'. fetchThread_loop env s thread (Some C)
                 = Some (transcript_line env A # transcript_line env B # transcript_line env C
                           # thread, s'))
       \<and> (\<exists>s'. fetchThread env s (Some C)
                 = Some ((transcript_line env A @ ''\<newline>\<newline>'' @ transcript_line env B
                            @ ''\<newline>\<newline>'' @ transcript_line env C, None), s'))"
proof -
  have "climbs env (world s) C [C, B] w2 A"
    using assms by (auto intro!: climbs.intros)
  from loop_climbs [OF this refl]
  have *: "\<exists>s2. fetchThread_loop env s th (Some C)
             = fetchThread_loop env s2 (transcript_line env B # transcript_line env C # th) (Some A)"
    for th by auto
  have **: "\<exists>s'. fetchThread_loop env s th (Some C)
             = Some (transcript_line env A # transcript_line env B # transcript_line env C # th, s')"
    for th using * [of th] loop_root [OF assms(5)] by metis
  from ** [of thread] ** [of "[]"] show ?thesis
    by (auto simp: fetchThread_def)
qed

theorem fetchThread_chain_witness:
  "st_InReplyToID status_C = Some ''102''
   \<and> client_GetStatus example_env (world start) ''102'' = (Inr status_B, 1)
   \<and> st_InReplyToID status_B = Some ''101''
   \<and> client_GetStatus example_env 1 ''101'' = (Inr status_A, 2)
   \<and> st_InReplyToID status_A = None
   \<and> (\<exists>s'. fetchThread example_env start (Some status_C)
              = Some ((''alice: Is the release out?\<newline>\<newline>bob: Yes, since Monday.\<newline>\<newline>carol: @tldr what happened?'', None), s'))"
proof -
  have h: "st_InReplyToID status_C = Some ''102''"
    "client_GetStatus example_env (world start) ''102'' = (Inr status_B, 1)"
    "st_InReplyToID status_B = Some ''101''"
    "client_GetStatus example_env 1 ''101'' = (Inr status_A, 2)"
    "st_InReplyToID status_A = None"
    by (simp_all add: status_A_def status_B_def status_C_def example_env_def start_def)
  have l: "transcript_line example_env status_A = ''alice: Is the release out?''"
    "transcript_line example_env status_B = ''bob: Yes, since Monday.''"
    "transcript_line example_env status_C = ''carol: @tldr what happened?''"
    by (simp_all add: transcript_line_def thread_line_def plain_text_def example_env_def
          status_A_def status_B_def status_C_def alice_def bob_def carol_def)
  from fetchThread_chain [OF h, of "[]"] h l show ?thesis by simp
qed

text \<open>
  Claim C7. When the walk from a leaf has resolved some ancestors (\<open>below\<close> and
  \<open>anc\<close>, possibly the leaf alone) and the fetch of the next parent fails,
  \<open>fetchThread\<close> returns: its result is the transcript of the statuses resolved so
  far, root-most first, with no error; the failed fetch and the line that logs it are
  the last things it does.
\<close>

theorem fetchThread_partial:
  assumes "climbs env (world s) leaf below w anc"
    and "st_InReplyToID anc = Some parentID"
    and "client_GetStatus env w parentID = (Inl err, w')"
  shows "\<exists>s'. fetchThread env s (Some leaf)
              = Some ((strings_Join (map (transcript_line env) (anc # rev below)) ''\<newline>\<newline>'',
                       None), s')
           \<and> world s' = w'
           \<and> (\<exists>pre. trace s' = pre @ [GetStatus parentID,
                         LogPrintf (''Error fetching parent status: '' @ err)])"
proof -
  from loop_climbs [OF assms(1) refl, of "[]"] obtain s2 where
    s2: "world s2 = w"
    "fetchThread_loop env s [] (Some leaf)
       = fetchThread_loop env s2 (map (transcript_line env) (rev below)) (Some anc)"
    by auto
  from loop_fail [OF assms(2), of env s2 err w' "map (transcript_line env) (rev below)"] assms(3) s2(1)
  obtain s' where "fetchThread_loop env s2 (map (transcript_line env) (rev below)) (Some anc)
      = Some (transcript_line env anc # map (transcript_line env) (rev below), s')"
    "world s' = w'"
    "\<exists>pre. trace s' = pre @ [GetStatus parentID, LogPrintf (''Error fetching parent status: '' @ err)]"
    by auto
  with s2(2) show ?thesis by (auto simp: fetchThread_def)
qed

theorem fetchThread_partial_witness:
  "climbs lossy_env (world start) status_C [status_C] 1 status_B
   \<and> st_InReplyToID status_B = Some ''101''
   \<and> client_GetStatus lossy_env 1 ''101'' = (Inl ''404 Not Found'', 2)
   \<and> (\<exists>s'. fetchThread lossy_env start (Some status_C)
              = Some ((''bob: Yes, since Monday.\<newline>\<newline>carol: @tldr what happened?'', None), s')
            \<and> world s' = 2)"
proof -
  have c: "climbs lossy_env (world start) status_C [status_C] 1 status_B"
    by (rule climbs_up [OF _ _ climbs_here, where parentID = "''102''"])
       (simp_all add: status_C_def lossy_env_def example_env_def start_def)
  have h: "st_InReplyToID status_B = Some ''101''"
    "client_GetStatus lossy_env 1 ''101'' = (Inl ''404 Not Found'', 2)"
    by (simp_all add: status_B_def lossy_env_def example_env_def)
  have l: "transcript_line lossy_env status_B = ''bob: Yes, since Monday.''"
    "transcript_line lossy_env status_C = ''carol: @tldr what happened?''"
    by (simp_all add: transcript_line_def thread_line_def plain_text_def example_env_def lossy_env_def
          status_B_def status_C_def bob_def carol_def)
  from fetchThread_partial [OF c h] c h l show ?thesis by auto
qed

text \<open>
  Claim C9. Whatever the status and the collaborators, when \<open>fetchThread\<close> returns, its
  error result is nil. So the branch of \<open>handleMention\<close> for an error of
  \<open>fetchThread\<close> is never taken: whenever \<open>handleMention\<close> ends, the effects it has
  added to the trace do not contain the line that this branch logs.
\<close>

theorem fetchThread_error_nil:
  "(fetchThread env s status = Some ((thread, err), s') \<longrightarrow> err = None)
   \<and> (handleMention env s n = Some out \<longrightarrow>
        prefix (trace s) (trace (final_state out))
        \<and> (\<forall>e. LogPrintf (''Error fetching thread: '' @ e)
                 \<notin> set (new_effects s (final_state out))))"
proof (intro conjI impI)
  assume "fetchThread env s status = Some ((thread, err), s')"
  then show "err = None" by (simp add: fetchThread_trace)
next
  assume hm: "handleMention env s n = Some out"
  have "\<exists>new. trace (final_state out) = trace s @ new
          \<and> (list_all quiet_effect new
              \<or> (\<exists>pre t fin. new = pre @ [PostStatus t, fin] \<and> list_all quiet_effect pre
                    \<and> quiet_effect fin))"
  proof (cases "acc_Acct (n_Account n) = MASTODON_USERNAME env")
    case True
    with hm show ?thesis by (auto simp: handleMention_def)
  next
    case False
    show ?thesis
    proof (cases "n_Status n")
      case None
      with hm False show ?thesis by (auto simp: handleMention_def)
    next
      case (Some st)
      show ?thesis
      proof (cases "acc_Bot (st_Account st)")
        case True
        with hm False Some show ?thesis by (auto simp: handleMention_def)
      next
        case nb: False
        from handleMention_replies [OF hm False Some nb] show ?thesis
          by auto
      qed
    qed
  qed
  then obtain new where n: "trace (final_state out) = trace s @ new"
     and q: "list_all quiet_effect new
             \<or> (\<exists>pre t fin. new = pre @ [PostStatus t, fin] \<and> list_all quiet_effect pre
                   \<and> quiet_effect fin)"
    by auto
  from n show "prefix (trace s) (trace (final_state out))" by simp
  from n have ne: "new_effects s (final_state out) = new" by (simp add: new_effects_def)
  show "\<forall>e. LogPrintf (''Error fetching thread: '' @ e) \<notin> set (new_effects s (final_state out))"
  proof
    fix e
    have nq: "\<not> quiet_effect (LogPrintf (''Error fetching thread: '' @ e))" by simp
    from q show "LogPrintf (''Error fetching thread: '' @ e) \<notin> set (new_effects s (final_state out))"
      unfolding ne using nq by (auto simp: list_all_iff simp del: quiet_effect.simps)
  qed
qed

theorem fetchThread_error_nil_witness:
  "(\<exists>thread err s'. fetchThread example_env start (Some status_C) = Some ((thread, err), s')
       \<and> err = None)
   \<and> (\<exists>out. handleMention example_env start mention_C = Some out
         \<and> prefix (trace start) (trace (final_state out))
         \<and> (\<forall>e. LogPrintf (''Error fetching thread: '' @ e)
                  \<notin> set (new_effects start (final_state out))))"
  using fetchThread_error_nil [of example_env start "Some status_C" _ _ _ mention_C]
    example_fetch example_mention
  by blast

section \<open>Ignored mentions: claim C10\<close>

text \<open>
  Claim C10. One iteration of the event loop on a mention notification does nothing at
  all (no fetch, no generation, no reply: the state, with its trace, is unchanged)
  when the mentioning account is automated, when its handle is the value of
  \<open>MASTODON_USERNAME\<close>, and also when the author of the mentioned status is
  automated, whoever the mentioning account is.
\<close>

theorem mention_ignored:
  assumes "n_Type n = ''mention''"
    and "acc_Bot (n_Account n) \<or> acc_Acct (n_Account n) = MASTODON_USERNAME env
         \<or> (\<exists>st. n_Status n = Some st \<and> acc_Bot (st_Account st))"
  shows "handle_event env s (NotificationEvent n) = Some (Returned s)"
  using assms by (auto simp: handle_event_def handleMention_def)

theorem mention_ignored_witness:
  "\<not> acc_Bot carol \<and> acc_Acct carol \<noteq> MASTODON_USERNAME example_env
   \<and> acc_Bot (st_Account (status_C\<lparr>st_Account := newsbot\<rparr>))
   \<and> handle_event example_env start
        (NotificationEvent \<lparr>n_Type = ''mention'', n_Account = carol,
                             n_Status = Some (status_C\<lparr>st_Account := newsbot\<rparr>)\<rparr>)
       = Some (Returned start)"
  using mention_ignored [of "\<lparr>n_Type = ''mention'', n_Account = carol,
                             n_Status = Some (status_C\<lparr>st_Account := newsbot\<rparr>)\<rparr>" example_env start]
  by (simp add: carol_def newsbot_def example_env_def)

definition posted :: "'w bot_state \<Rightarrow> 'w outcome option \<Rightarrow> toot list option" where
  "posted s r = map_option (\<lambda>out. posts (new_effects s (final_state out))) r"

definition long_post_toot :: "status \<Rightarrow> string \<Rightarrow> toot" where
  "long_post_toot st summary =
     \<lparr>toot_Status = ''@'' @ acc_Acct (st_Account st) @ '' TL;DR: '' @ cleanResponse summary,
      toot_InReplyToID = st_ID st,
      toot_Visibility = st_Visibility st,
      toot_SpoilerText =
        (if st_SpoilerText st \<noteq> [] \<and> \<not> prefix ''re:'' (st_SpoilerText st)
         then ''re: '' @ st_SpoilerText st else st_SpoilerText st)\<rparr>"

lemma new_effects_append: "trace s' = trace s @ new \<Longrightarrow> new_effects s s' = new"
  by (simp add: new_effects_def)

lemma handleMention_runs:
  assumes "acc_Acct (n_Account n) \<noteq> MASTODON_USERNAME env"
    and "n_Status n = Some st" and "\<not> acc_Bot (st_Account st)"
    and "fetchThread env s (Some st) = Some ((thread, err), s1)"
  shows "\<exists>s'. handleMention env s n = Some (Returned s')
           \<and> posts (new_effects s s')
               = [mention_toot n st
                    (case fst (summarizeThread env s1 thread False) of
                       Inl e \<Rightarrow> apology e | Inr summary \<Rightarrow> summary)]"
proof -
  from fetchThread_trace [OF assms(4)] obtain fx where
    en: "err = None" and fx: "trace s1 = trace s @ fx" "list_all quiet_effect fx" by auto
  obtain res s2 where su: "summarizeThread env s1 thread False = (res, s2)"
    by (cases "summarizeThread env s1 thread False")
  from summarizeThread_trace [OF su] obtain gx where
    gx: "trace s2 = trace s1 @ gx" "list_all quiet_effect gx" by auto
  define body where "body = (case res of Inl e \<Rightarrow> apology e | Inr summary \<Rightarrow> summary)"
  define s3 where "s3 = (case res of
      Inl e \<Rightarrow> emit (LogPrintf (''Error summarizing thread: '' @ e)) s2 | Inr summary \<Rightarrow> s2)"
  have t3: "\<exists>lg. trace s3 = trace s2 @ lg \<and> list_all quiet_effect lg"
    by (cases res) (simp_all add: s3_def emit_def)
  obtain r s4 where
    c: "call (\<lambda>w. client_PostStatus env w (mention_toot n st body))
          (PostStatus (mention_toot n st body)) s3 = (r, s4)"
    by (cases "call (\<lambda>w. client_PostStatus env w (mention_toot n st body))
          (PostStatus (mention_toot n st body)) s3")
  then have t4: "trace s4 = trace s3 @ [PostStatus (mention_toot n st body)]"
    by (auto simp: call_def split: prod.splits)
  have "\<exists>fin. quiet_effect fin \<and> handleMention env s n = Some (Returned (emit fin s4))"
  proof (cases r)
    case None
    have "handleMention env s n = Some (Returned (emit (FmtPrintf (''Posted summary: ''
             @ toot_Status (mention_toot n st body) @ ''\<newline>'')) s4))"
      using assms(1-3) assms(4) [unfolded en] su c [unfolded None]
      by (cases res)
         (simp_all add: handleMention_def Let_def body_def s3_def mention_toot_def apology_def
            strings_HasPrefix_def)
    moreover have "quiet_effect (FmtPrintf (''Posted summary: ''
             @ toot_Status (mention_toot n st body) @ ''\<newline>''))" by simp
    ultimately show ?thesis by blast
  next
    case (Some e)
    have "handleMention env s n
            = Some (Returned (emit (LogPrintf (''Error posting summary: '' @ e)) s4))"
      using assms(1-3) assms(4) [unfolded en] su c [unfolded Some]
      by (cases res)
         (simp_all add: handleMention_def Let_def body_def s3_def mention_toot_def apology_def
            strings_HasPrefix_def)
    moreover have "quiet_effect (LogPrintf (''Error posting summary: '' @ e))" by simp
    ultimately show ?thesis by blast
  qed
  then obtain fin where f: "quiet_effect fin"
    "handleMention env s n = Some (Returned (emit fin s4))" by blast
  from t3 obtain lg where lg: "trace s3 = trace s2 @ lg" "list_all quiet_effect lg" by blast
  from f(1) have pf: "posts [fin] = []" by (cases fin) auto
  have "trace (emit fin s4)
          = trace s @ (fx @ gx @ lg) @ [PostStatus (mention_toot n st body)] @ [fin]"
    using fx gx lg t4 by (simp add: emit_def)
  then have "new_effects s (emit fin s4)
          = (fx @ gx @ lg) @ [PostStatus (mention_toot n st body)] @ [fin]"
    by (rule new_effects_append)
  moreover have "posts (fx @ gx @ lg) = []"
    using fx(2) gx(2) lg(2) by (simp add: posts_quiet)
  ultimately have "posts (new_effects s (emit fin s4)) = [mention_toot n st body]"
    using pf by (simp add: posts_append)
  with f(2) su show ?thesis by (simp add: body_def)
qed

lemma handleMention_posts:
  assumes "handleMention env s n = Some out" and "n_Status n = Some st"
  shows "posts (new_effects s (final_state out)) = []
       \<or> (\<exists>text. posts (new_effects s (final_state out)) = [mention_toot n st text])"
proof (cases "acc_Acct (n_Account n) \<noteq> MASTODON_USERNAME env \<and> \<not> acc_Bot (st_Account st)")
  case True
  with assms obtain thread err s1 where ft: "fetchThread env s (Some st) = Some ((thread, err), s1)"
    by (auto simp: handleMention_def split: option.splits)
  from handleMention_runs [OF _ assms(2) _ ft] True assms(1) show ?thesis by auto
next
  case False
  with assms have "out = Returned s" by (auto simp: handleMention_def split: if_splits)
  then show ?thesis by (simp add: new_effects_def)
qed

lemma checkForLongPost_posts:
  "posts (new_effects s (checkForLongPost env s st))
     = (if long_post env (plain_text env (st_Content st))
        then (case fst (summarizeThread env (snd (extractTextFromHTML env s (st_Content st)))
                          (plain_text env (st_Content st)) True) of
                Inl err \<Rightarrow> []
              | Inr summary \<Rightarrow> [long_post_toot st summary])
        else [])"
proof -
  obtain s1 where ex: "extractTextFromHTML env s (st_Content st) = (plain_text env (st_Content st), s1)"
    using extract_eq by blast
  from extract_trace [of env s "st_Content st"] ex
  obtain new1 where n1: "trace s1 = trace s @ new1" "list_all quiet_effect new1" by auto
  obtain res s2 where su: "summarizeThread env s1 (plain_text env (st_Content st)) True = (res, s2)"
    by (cases "summarizeThread env s1 (plain_text env (st_Content st)) True")
  from summarizeThread_trace [OF su] obtain new2 where
    n2: "trace s2 = trace s1 @ new2" "list_all quiet_effect new2" by auto
  show ?thesis
  proof (cases "long_post env (plain_text env (st_Content st))")
    case False
    with ex n1 show ?thesis
      by (simp add: checkForLongPost_def new_effects_append posts_quiet)
  next
    case True
    show ?thesis
    proof (cases res)
      case (Inl err)
      with True ex su n1 n2 show ?thesis
        by (simp add: checkForLongPost_def emit_def new_effects_append posts_append posts_quiet)
    next
      case (Inr summary)
      obtain r s3 where
        c: "call (\<lambda>w. client_PostStatus env w (long_post_toot st summary))
              (PostStatus (long_post_toot st summary)) s2 = (r, s3)"
        by (cases "call (\<lambda>w. client_PostStatus env w (long_post_toot st summary))
              (PostStatus (long_post_toot st summary)) s2")
      then have t3: "trace s3 = trace s2 @ [PostStatus (long_post_toot st summary)]"
        by (auto simp: call_def split: prod.splits)
      have "\<exists>fin. quiet_effect fin \<and> checkForLongPost env s st = emit fin s3"
      proof (cases r)
        case None
        with True ex su Inr c have "checkForLongPost env s st
            = emit (FmtPrintf (''Posted TL;DR for user '' @ acc_Acct (st_Account st) @ ''\<newline>'')) s3"
          by (simp add: checkForLongPost_def Let_def long_post_toot_def strings_HasPrefix_def)
        moreover have "quiet_effect (FmtPrintf (''Posted TL;DR for user ''
                          @ acc_Acct (st_Account st) @ ''\<newline>''))"
          by simp
        ultimately show ?thesis by blast
      next
        case (Some e)
        with True ex su Inr c have "checkForLongPost env s st
            = emit (LogPrintf (''Error posting TL;DR: '' @ e)) s3"
          by (simp add: checkForLongPost_def Let_def long_post_toot_def strings_HasPrefix_def)
        moreover have "quiet_effect (LogPrintf (''Error posting TL;DR: '' @ e))"
          by simp
        ultimately show ?thesis by blast
      qed
      then obtain fin where f: "quiet_effect fin" "checkForLongPost env s st = emit fin s3"
        by blast
      from f(1) have "posts [fin] = []" by (cases fin) auto
      with f(2) t3 n1 n2 have "posts (new_effects s (checkForLongPost env s st))
          = [long_post_toot st summary]"
        using posts_append [of "new1 @ new2 @ [PostStatus (long_post_toot st summary)]" "[fin]"]
        by (simp add: emit_def new_effects_append posts_append posts_quiet)
      with True su Inr ex show ?thesis by simp
    qed
  qed
qed

end
